theory Spec2Isabelle
  imports Main
begin

section \<open>Data model\<close>

text \<open>
  The submission serializer of \<^verbatim>\<open>src/apps/api/serializers/submissions.py\<close> works on
  Django model instances and on the dictionary \<^verbatim>\<open>validated_data\<close>. Users and phases are
  referred to by their primary keys.
\<close>

type_synonym user = nat

text \<open>
  A dictionary entry: \<open>None\<close> when the key is absent from the dictionary, \<open>Some v\<close> when
  the dictionary maps the key to \<open>v\<close>. A nullable value is itself an option, with
  \<open>None\<close> for Python's \<^verbatim>\<open>None\<close>.
\<close>

type_synonym 'a entry = "'a option"

text \<open>
  Modelled from the spec: the status constants of the \<^verbatim>\<open>Submission\<close> model
  (\<^verbatim>\<open>competitions.models\<close>, of which the serializer uses \<^verbatim>\<open>Submission.SCORING\<close> and the
  tests \<^verbatim>\<open>Submission.FINISHED\<close>) are not among the sources; the states are the seven that
  the specification lists for the submission state machine.
\<close>

datatype status = SUBMITTING | SUBMITTED | RUNNING | SCORING | FINISHED | FAILED | CANCELLED

text \<open>\<^verbatim>\<open>datasets.models.Data\<close>: the slug \<^verbatim>\<open>key\<close> and the name of \<^verbatim>\<open>data_file\<close>.\<close>

record data_blob =
  key :: string
  data_file_name :: "string option"

text \<open>
  A row of the \<^verbatim>\<open>Submission\<close> table, with the fields that the serializer's \<^verbatim>\<open>Meta.fields\<close>
  names, the owner that \<^verbatim>\<open>create\<close> sets, and the parent link and \<^verbatim>\<open>has_children\<close> flag
  that the migration tests set.
\<close>

record submission =
  pk :: nat
  owner :: user
  data :: "data_blob option"
  phase :: nat
  status :: status
  status_details :: "string option"
  description :: "string option"
  secret :: "string option"
  parent :: "nat option"
  has_children :: bool

text \<open>
  \<^verbatim>\<open>validated_data\<close>: one optional entry for each writable field of
  \<^verbatim>\<open>SubmissionCreationSerializer\<close> (\<^verbatim>\<open>id\<close>, \<^verbatim>\<open>filename\<close> and \<^verbatim>\<open>description\<close> are read-only),
  and the \<^verbatim>\<open>owner\<close> entry that \<^verbatim>\<open>create\<close> adds.
\<close>

record validated_data =
  vd_data :: "data_blob option entry"
  vd_phase :: "nat entry"
  vd_status :: "status entry"
  vd_status_details :: "string option entry"
  vd_secret :: "string option entry"
  vd_owner :: "user entry"

text \<open>\<^verbatim>\<open>self.context\<close> of the serializer; \<^verbatim>\<open>create\<close> reads its \<^verbatim>\<open>'owner'\<close> key.\<close>

record serializer_context =
  ctx_owner :: "user entry"

text \<open>The exceptions that the modelled code raises.\<close>

datatype error = PermissionError | KeyError | AttributeError | TypeError | NotFoundError

text \<open>
  The effects of a call, in the order in which they happen: a write of the row with
  the given primary key to the database, and a call of
  \<^verbatim>\<open>run_submission(pk, is_scoring=...)\<close>.
\<close>

datatype event = DbWrite nat | RunSubmission nat bool

record world =
  submissions :: "submission list"
  next_pk :: nat
  events :: "event list"

section \<open>The operations of the serializer\<close>

text \<open>\<^verbatim>\<open>d.get(k)\<close> on a dictionary with nullable values: \<^verbatim>\<open>None\<close> when the key is absent.\<close>

definition dict_get :: "'a option entry \<Rightarrow> 'a option" where
  "dict_get e = (case e of None \<Rightarrow> None | Some v \<Rightarrow> v)"

text \<open>
  Modelled from the spec: \<^verbatim>\<open>competitions.tasks.run_submission\<close> is not among the sources
  (the tests replace it by a mock and count its calls). The specification treats the
  dispatch to the execution collaborator as fire-and-forget and opaque, so a call only
  records itself.
\<close>

definition run_submission :: "world \<Rightarrow> nat \<Rightarrow> bool \<Rightarrow> world" where
  "run_submission w sub_pk is_scoring =
     w\<lparr>events := events w @ [RunSubmission sub_pk is_scoring]\<rparr>"

text \<open>
  Modelled from the spec: \<^verbatim>\<open>Submission.start\<close> (\<^verbatim>\<open>competitions.models\<close>) is not among the
  sources. The specification has it dispatch the submission to the execution
  collaborator, and the migration tests count one \<^verbatim>\<open>run_submission\<close> call for each
  started submission.
\<close>

definition start :: "world \<Rightarrow> submission \<Rightarrow> world" where
  "start w sub = run_submission w (pk sub) False"

text \<open>
  \<^verbatim>\<open>setattr(instance, attr, value)\<close> for every item of \<^verbatim>\<open>validated_data\<close>, as
  \<^verbatim>\<open>ModelSerializer.update\<close> does before it saves.
\<close>

definition set_attrs :: "submission \<Rightarrow> validated_data \<Rightarrow> submission" where
  "set_attrs inst vd =
     inst\<lparr>data := (case vd_data vd of None \<Rightarrow> data inst | Some v \<Rightarrow> v),
          phase := (case vd_phase vd of None \<Rightarrow> phase inst | Some v \<Rightarrow> v),
          status := (case vd_status vd of None \<Rightarrow> status inst | Some v \<Rightarrow> v),
          status_details :=
            (case vd_status_details vd of None \<Rightarrow> status_details inst | Some v \<Rightarrow> v),
          secret := (case vd_secret vd of None \<Rightarrow> secret inst | Some v \<Rightarrow> v),
          owner := (case vd_owner vd of None \<Rightarrow> owner inst | Some v \<Rightarrow> v)\<rparr>"

text \<open>
  \<^verbatim>\<open>instance.save()\<close>: the row with the instance's primary key is replaced; an instance
  whose key is not in the table is inserted.
\<close>

definition save :: "world \<Rightarrow> submission \<Rightarrow> world" where
  "save w inst =
     w\<lparr>submissions :=
          (if pk inst \<in> set (map pk (submissions w))
           then map (\<lambda>r. if pk r = pk inst then inst else r) (submissions w)
           else submissions w @ [inst]),
        events := events w @ [DbWrite (pk inst)]\<rparr>"

text \<open>\<^verbatim>\<open>super().update(instance, validated_data)\<close>.\<close>

definition super_update ::
  "world \<Rightarrow> submission \<Rightarrow> validated_data \<Rightarrow> world \<times> (error + submission)" where
  "super_update w inst vd = (let inst' = set_attrs inst vd in (save w inst', Inr inst'))"

text \<open>
  \<^verbatim>\<open>SubmissionCreationSerializer.update\<close>. The two \<^verbatim>\<open>print\<close> calls write to the standard
  output only and are left out. \<^verbatim>\<open>validated_data["status"]\<close> raises \<^verbatim>\<open>KeyError\<close> when
  the key is absent.
\<close>

definition update ::
  "world \<Rightarrow> submission \<Rightarrow> validated_data \<Rightarrow> world \<times> (error + submission)" where
  "update w inst vd =
     (if secret inst \<noteq> dict_get (vd_secret vd) then (w, Inl PermissionError)
      else case vd_status vd of
        None \<Rightarrow> (w, Inl KeyError)
      | Some st \<Rightarrow>
          (let w1 = (if st = SCORING then run_submission w (pk inst) True else w)
           in super_update w1 inst vd))"

text \<open>
  A new row gets the next primary key of the table and is written to it.
\<close>

definition insert_row :: "world \<Rightarrow> submission \<Rightarrow> world \<times> submission" where
  "insert_row w row =
     (let sub = row\<lparr>pk := next_pk w\<rparr>
      in (w\<lparr>submissions := submissions w @ [sub],
            next_pk := Suc (next_pk w),
            events := events w @ [DbWrite (pk sub)]\<rparr>, sub))"

text \<open>
  \<^verbatim>\<open>super().create(validated_data)\<close>, that is
  \<^verbatim>\<open>Submission.objects.create(**validated_data)\<close>: the fields named in
  \<^verbatim>\<open>validated_data\<close> are set, every other field keeps the default of the model. The
  defaults (among them the generated secret) are declared in the model, which is not
  among the sources, and are a parameter.
\<close>

definition super_create ::
  "submission \<Rightarrow> world \<Rightarrow> validated_data \<Rightarrow> world \<times> submission" where
  "super_create defaults w vd = insert_row w (set_attrs defaults vd)"

text \<open>
  \<^verbatim>\<open>SubmissionCreationSerializer.create\<close>. \<^verbatim>\<open>self.context['owner']\<close> raises \<^verbatim>\<open>KeyError\<close>
  when the context has no owner.
\<close>

definition create ::
  "submission \<Rightarrow> world \<Rightarrow> serializer_context \<Rightarrow> validated_data
     \<Rightarrow> world \<times> (error + submission)" where
  "create defaults w ctx vd =
     (case ctx_owner ctx of
        None \<Rightarrow> (w, Inl KeyError)
      | Some u \<Rightarrow>
          (let vd' = vd\<lparr>vd_owner := Some u\<rparr>;
               (w1, sub) = super_create defaults w vd';
               w2 = start w1 sub
           in (w2, Inr sub)))"

section \<open>Serialization\<close>

text \<open>\<^verbatim>\<open>os.path.basename\<close>: what follows the last slash.\<close>

definition basename :: "string \<Rightarrow> string" where
  "basename p = rev (takeWhile (\<lambda>c. c \<noteq> CHR ''/'') (rev p))"

text \<open>
  \<^verbatim>\<open>get_filename\<close>: \<^verbatim>\<open>basename(instance.data.data_file.name)\<close>. A submission without data
  has no \<^verbatim>\<open>data_file\<close> attribute to read, and \<^verbatim>\<open>basename\<close> rejects \<^verbatim>\<open>None\<close>.
\<close>

definition get_filename :: "submission \<Rightarrow> error + string" where
  "get_filename inst =
     (case data inst of
        None \<Rightarrow> Inl AttributeError
      | Some d \<Rightarrow>
          (case data_file_name d of
             None \<Rightarrow> Inl TypeError
           | Some n \<Rightarrow> Inr (basename n)))"

text \<open>The primitive values of a serialized submission.\<close>

datatype repr_value = RNone | RStr string | RInt nat | RStatus status

definition repr_str :: "string option \<Rightarrow> repr_value" where
  "repr_str v = (case v of None \<Rightarrow> RNone | Some s \<Rightarrow> RStr s)"

text \<open>
  \<^verbatim>\<open>SubmissionCreationSerializer.Meta\<close>: the declared fields, in their order, and the
  \<^verbatim>\<open>write_only\<close> and \<^verbatim>\<open>read_only\<close> flags of \<^verbatim>\<open>extra_kwargs\<close> (\<^verbatim>\<open>filename\<close> is declared
  read-only in the class body).
\<close>

definition Meta_fields :: "string list" where
  "Meta_fields =
     [''id'', ''data'', ''phase'', ''status'', ''status_details'', ''filename'',
      ''description'', ''secret'']"

definition write_only_fields :: "string list" where
  "write_only_fields = [''secret'']"

definition read_only_fields :: "string list" where
  "read_only_fields = [''description'', ''filename'']"

text \<open>
  The value that a declared field serializes to: the primary key for \<^verbatim>\<open>id\<close> and for the
  related phase, the slug \<^verbatim>\<open>key\<close> for \<^verbatim>\<open>data\<close>, the method field \<^verbatim>\<open>filename\<close> through
  \<^verbatim>\<open>get_filename\<close>, the attribute itself otherwise.
\<close>

definition field_value :: "submission \<Rightarrow> string \<Rightarrow> error + repr_value" where
  "field_value inst f =
     (if f = ''id'' then Inr (RInt (pk inst))
      else if f = ''data'' then
        Inr (case data inst of None \<Rightarrow> RNone | Some d \<Rightarrow> RStr (key d))
      else if f = ''phase'' then Inr (RInt (phase inst))
      else if f = ''status'' then Inr (RStatus (status inst))
      else if f = ''status_details'' then Inr (repr_str (status_details inst))
      else if f = ''filename'' then
        (case get_filename inst of Inl e \<Rightarrow> Inl e | Inr n \<Rightarrow> Inr (RStr n))
      else if f = ''description'' then Inr (repr_str (description inst))
      else if f = ''secret'' then Inr (repr_str (secret inst))
      else Inl AttributeError)"

text \<open>
  \<^verbatim>\<open>Serializer.to_representation\<close>: an ordered dictionary with one item for each
  readable field, that is each declared field that is not write-only. The first
  exception of a field ends the serialization.
\<close>

fun represent_fields ::
  "submission \<Rightarrow> string list \<Rightarrow> error + (string \<times> repr_value) list" where
  "represent_fields inst [] = Inr []"
| "represent_fields inst (f # fs) =
     (case field_value inst f of
        Inl e \<Rightarrow> Inl e
      | Inr v \<Rightarrow>
          (case represent_fields inst fs of
             Inl e \<Rightarrow> Inl e
           | Inr r \<Rightarrow> Inr ((f, v) # r)))"

definition readable_fields :: "string list" where
  "readable_fields = filter (\<lambda>f. f \<notin> set write_only_fields) Meta_fields"

definition to_representation :: "submission \<Rightarrow> error + (string \<times> repr_value) list" where
  "to_representation inst = represent_fields inst readable_fields"

section \<open>Phase migration\<close>

record leaderboard =
  lb_id :: nat
  lb_title :: string

record competition =
  comp_title :: string
  created_by :: user
  collaborators :: "user list"
  leaderboards :: "leaderboard list"

record phase_rec =
  phase_id :: nat
  phase_index :: nat
  phase_competition :: competition

record migration_result =
  created :: nat
  triggers :: nat

text \<open>
  Modelled from the spec: the view behind \<^verbatim>\<open>phases-manually_migrate\<close> and the migration
  it starts are not among the sources, only their tests are. The definitions below
  follow section 4.2 of the specification: the requester must be a collaborator or the
  creator of the competition that owns the source phase; the top-level submissions of
  the source phase (those without a parent) are selected, whether or not they have
  children; each is cloned into the target phase (new identifier, same owner and data,
  no parent, status back to \<open>SUBMITTING\<close>) and the clone is started; the result counts
  the submissions created and the execution triggers issued.
\<close>

definition has_admin_permission :: "competition \<Rightarrow> user \<Rightarrow> bool" where
  "has_admin_permission cmpt requester =
     (requester = created_by cmpt \<or> requester \<in> set (collaborators cmpt))"

definition clone :: "nat \<Rightarrow> submission \<Rightarrow> submission" where
  "clone target s = s\<lparr>phase := target, parent := None, status := SUBMITTING\<rparr>"

definition migrate_one ::
  "nat \<Rightarrow> submission \<Rightarrow> world \<times> migration_result \<Rightarrow> world \<times> migration_result" where
  "migrate_one target s acc =
     (let (w, r) = acc;
          (w1, c) = insert_row w (clone target s);
          w2 = start w1 c
      in (w2, r\<lparr>created := Suc (created r), triggers := Suc (triggers r)\<rparr>))"

definition select_top_level :: "world \<Rightarrow> nat \<Rightarrow> submission list" where
  "select_top_level w source =
     filter (\<lambda>s. phase s = source \<and> parent s = None) (submissions w)"

definition migrate ::
  "world \<Rightarrow> phase_rec \<Rightarrow> phase_rec \<Rightarrow> user \<Rightarrow> world \<times> (error + migration_result)" where
  "migrate w source_phase target_phase requester =
     (if \<not> has_admin_permission (phase_competition source_phase) requester
      then (w, Inl PermissionError)
      else
        (let selected = select_top_level w (phase_id source_phase);
             (w', r) = fold (migrate_one (phase_id target_phase)) selected
                         (w, \<lparr>created = 0, triggers = 0\<rparr>)
         in (w', Inr r)))"

text \<open>What the tests count: the submissions of a phase and the calls of \<^verbatim>\<open>run_submission\<close>.\<close>

definition count_submissions :: "world \<Rightarrow> nat \<Rightarrow> nat" where
  "count_submissions w p = length (filter (\<lambda>s. phase s = p) (submissions w))"

fun is_dispatch :: "event \<Rightarrow> bool" where
  "is_dispatch (RunSubmission _ _) = True"
| "is_dispatch (DbWrite _) = False"

definition call_count :: "world \<Rightarrow> nat" where
  "call_count w = length (filter is_dispatch (events w))"

section \<open>Result export\<close>

text \<open>The decimal digits of a natural number, as \<^verbatim>\<open>str\<close> and an f-string write it.\<close>

definition digit_char :: "nat \<Rightarrow> char" where
  "digit_char d = ''0123456789'' ! d"

fun str_nat :: "nat \<Rightarrow> string" where
  "str_nat n =
     (if n < 10 then [digit_char n] else str_nat (n div 10) @ [digit_char (n mod 10)])"

declare str_nat.simps [simp del]

text \<open>\<^verbatim>\<open>sub in s\<close> on strings: \<open>sub\<close> occurs in \<open>s\<close> as a contiguous block.\<close>

fun starts_with :: "string \<Rightarrow> string \<Rightarrow> bool" where
  "starts_with s [] = True"
| "starts_with [] (c # sub) = False"
| "starts_with (d # s) (c # sub) = (d = c \<and> starts_with s sub)"

fun str_contains :: "string \<Rightarrow> string \<Rightarrow> bool" where
  "str_contains [] sub = (sub = [])"
| "str_contains (d # s) sub = (starts_with (d # s) sub \<or> str_contains s sub)"

datatype selector = AllLeaderboards | ById nat | ByTitle string

record 'a zip_response =
  content_type :: string
  content_disposition :: string
  zip_entries :: "(string \<times> 'a) list"

text \<open>
  Modelled from the spec: the \<^verbatim>\<open>results\<close> view of a competition is not among the sources,
  only its tests are. The definitions below follow section 4.4 of the specification:
  the selector is all leaderboards, an exact id, or a case-sensitive substring given as
  \<^verbatim>\<open>title\<close>; the key of a leaderboard is \<^verbatim>\<open>"{title}({id})"\<close>; a selector by id or by title that
  matches nothing fails with \<open>NotFoundError\<close>; the JSON export maps each key to the
  leaderboard's results; the ZIP export has one CSV named after the key for each matched
  leaderboard, with the content type and the attachment name of section 6. What a
  leaderboard renders to is computed by the aggregator and is a parameter here.

  The \<^verbatim>\<open>title\<close> string is looked for in the key of the leaderboard, which begins with
  its title. The tests fix this reading:
  \<^verbatim>\<open>test_get_competition_leaderboard_by_title_as_json\<close> asks for a title and requires
  the string to occur in every key of the answer, and
  \<^verbatim>\<open>test_get_competition_leaderboard_by_title_as_csv\<close> asks for
  \<^verbatim>\<open>title={title}({id})\<close> and requires an answer with a header row, where no bare title
  contains the string.
\<close>

definition composite_key :: "leaderboard \<Rightarrow> string" where
  "composite_key l = lb_title l @ ''('' @ str_nat (lb_id l) @ '')''"

definition select_leaderboards :: "competition \<Rightarrow> selector \<Rightarrow> leaderboard list" where
  "select_leaderboards cmpt sel =
     (case sel of
        AllLeaderboards \<Rightarrow> leaderboards cmpt
      | ById i \<Rightarrow> filter (\<lambda>l. lb_id l = i) (leaderboards cmpt)
      | ByTitle t \<Rightarrow> filter (\<lambda>l. str_contains (composite_key l) t) (leaderboards cmpt))"

definition matched_leaderboards :: "competition \<Rightarrow> selector \<Rightarrow> error + leaderboard list" where
  "matched_leaderboards cmpt sel =
     (let ms = select_leaderboards cmpt sel
      in if sel \<noteq> AllLeaderboards \<and> ms = [] then Inl NotFoundError else Inr ms)"


definition export_zip ::
  "(leaderboard \<Rightarrow> 'a) \<Rightarrow> competition \<Rightarrow> selector \<Rightarrow> error + 'a zip_response" where
  "export_zip render_csv cmpt sel =
     (case matched_leaderboards cmpt sel of
        Inl e \<Rightarrow> Inl e
      | Inr ms \<Rightarrow>
          Inr \<lparr>content_type = ''application/x-zip-compressed'',
               content_disposition = ''attachment; filename='' @ comp_title cmpt @ ''.zip'',
               zip_entries = map (\<lambda>l. (composite_key l @ ''.csv'', render_csv l)) ms\<rparr>)"

section \<open>Example data\<close>

definition finished_submission :: submission where
  "finished_submission =
     \<lparr>pk = 1, owner = 7,
      data = Some \<lparr>key = ''d41d8c'', data_file_name = Some ''uploads/2021/run.zip''\<rparr>,
      phase = 1, status = FINISHED, status_details = None, description = None,
      secret = Some ''s3cret'', parent = None, has_children = False\<rparr>"

definition world0 :: world where
  "world0 = \<lparr>submissions = [finished_submission], next_pk = 2, events = []\<rparr>"

definition vd_status_only :: "status \<Rightarrow> string \<Rightarrow> validated_data" where
  "vd_status_only st sec =
     \<lparr>vd_data = None, vd_phase = None, vd_status = Some st, vd_status_details = None,
      vd_secret = Some (Some sec), vd_owner = None\<rparr>"

definition model_defaults :: submission where
  "model_defaults =
     \<lparr>pk = 0, owner = 0, data = None, phase = 0, status = SUBMITTING,
      status_details = None, description = None, secret = Some ''fresh-token'',
      parent = None, has_children = False\<rparr>"

definition vd_new :: validated_data where
  "vd_new =
     \<lparr>vd_data = Some (Some \<lparr>key = ''9f2c'', data_file_name = Some ''sub.zip''\<rparr>),
      vd_phase = Some 1, vd_status = None, vd_status_details = None,
      vd_secret = None, vd_owner = None\<rparr>"

definition example_competition :: competition where
  "example_competition =
     \<lparr>comp_title = ''Autumn Challenge'', created_by = 7, collaborators = [9],
      leaderboards =
        [\<lparr>lb_id = 3, lb_title = ''Results''\<rparr>,
         \<lparr>lb_id = 12, lb_title = ''Final Results''\<rparr>,
         \<lparr>lb_id = 15, lb_title = ''Development''\<rparr>]\<rparr>"

definition phase_1 :: phase_rec where
  "phase_1 = \<lparr>phase_id = 1, phase_index = 0, phase_competition = example_competition\<rparr>"

definition phase_2 :: phase_rec where
  "phase_2 = \<lparr>phase_id = 2, phase_index = 1, phase_competition = example_competition\<rparr>"

definition leaf :: "nat \<Rightarrow> submission" where
  "leaf n =
     \<lparr>pk = n, owner = 7, data = None, phase = 1, status = FINISHED,
      status_details = None, description = None, secret = Some ''s3cret'',
      parent = None, has_children = False\<rparr>"

definition world_leaves :: world where
  "world_leaves = \<lparr>submissions = [leaf 1, leaf 2, leaf 3], next_pk = 4, events = []\<rparr>"

definition parent_submission :: submission where
  "parent_submission = (leaf 1)\<lparr>has_children := True\<rparr>"

definition child :: "nat \<Rightarrow> submission" where
  "child n = (leaf n)\<lparr>parent := Some 1\<rparr>"

definition second_parent :: submission where
  "second_parent = (leaf 4)\<lparr>has_children := True\<rparr>"

definition world_families :: world where
  "world_families =
     \<lparr>submissions =
        [parent_submission, child 2, child 3, second_parent, (leaf 5)\<lparr>parent := Some 4\<rparr>],
      next_pk = 6, events = []\<rparr>"

section \<open>Properties of the status update\<close>

lemma pk_set_attrs: "pk (set_attrs inst vd) = pk inst"
  by (simp add: set_attrs_def)

lemma status_set_attrs: "vd_status vd = Some st \<Longrightarrow> status (set_attrs inst vd) = st"
  by (simp add: set_attrs_def)

lemma events_save: "events (save w inst) = events w @ [DbWrite (pk inst)]"
  by (simp add: save_def)

lemma saved_row_stored: "inst \<in> set (submissions (save w inst))"
  by (auto simp add: save_def)

text \<open>
  C1. When the secret of the request differs from the stored secret of the submission,
  \<open>update\<close> raises \<open>PermissionError\<close> whatever else the request holds (the status key is
  not even looked up), and the world, with every stored row, is the one before the call.
\<close>

theorem update_wrong_secret:
  "secret inst \<noteq> dict_get (vd_secret vd) \<Longrightarrow> update w inst vd = (w, Inl PermissionError)"
  by (simp add: update_def)

theorem update_wrong_secret_witness:
  "secret finished_submission \<noteq> dict_get (vd_secret (vd_status_only RUNNING ''guess''))
   \<and> update world0 finished_submission (vd_status_only RUNNING ''guess'')
       = (world0, Inl PermissionError)"
proof -
  have h: "secret finished_submission \<noteq> dict_get (vd_secret (vd_status_only RUNNING ''guess''))"
    by (simp add: finished_submission_def vd_status_only_def dict_get_def)
  from update_wrong_secret [OF h] h show ?thesis by simp
qed

text \<open>
  C2. An update that passes the secret check and asks for the status \<open>st\<close> succeeds;
  its effects are one call \<^verbatim>\<open>run_submission(pk, is_scoring=True)\<close> followed by the
  database write when \<open>st\<close> is \<open>SCORING\<close>, and the database write alone for every other
  status.
\<close>

theorem update_dispatch:
  assumes "secret inst = dict_get (vd_secret vd)" and "vd_status vd = Some st"
  shows "snd (update w inst vd) = Inr (set_attrs inst vd)
     \<and> events (fst (update w inst vd)) =
         events w @ (if st = SCORING then [RunSubmission (pk inst) True] else [])
           @ [DbWrite (pk inst)]
     \<and> call_count (fst (update w inst vd)) =
         call_count w + (if st = SCORING then 1 else 0)"
  using assms
  by (simp add: update_def super_update_def Let_def events_save pk_set_attrs
      run_submission_def call_count_def)

theorem update_dispatch_witness:
  "events (fst (update world0 finished_submission (vd_status_only SCORING ''s3cret'')))
     = [RunSubmission 1 True, DbWrite 1]
   \<and> events (fst (update world0 finished_submission (vd_status_only FAILED ''s3cret'')))
     = [DbWrite 1]"
proof -
  have s: "secret finished_submission = dict_get (vd_secret (vd_status_only st ''s3cret''))"
    for st
    by (simp add: finished_submission_def vd_status_only_def dict_get_def)
  have v: "vd_status (vd_status_only st ''s3cret'') = Some st" for st
    by (simp add: vd_status_only_def)
  from update_dispatch [where st = SCORING and w = world0, OF s v]
    update_dispatch [where st = FAILED and w = world0, OF s v]
  show ?thesis
    by (simp add: world0_def finished_submission_def)
qed

text \<open>
  C3, as the claim states it, fails: a submission in the terminal state \<open>FINISHED\<close> is
  moved to \<open>RUNNING\<close> by an update with the right secret; the call returns the updated
  submission and the stored row changes.
\<close>

theorem update_terminal_counterexample:
  "status finished_submission = FINISHED
   \<and> secret finished_submission = dict_get (vd_secret (vd_status_only RUNNING ''s3cret''))
   \<and> update world0 finished_submission (vd_status_only RUNNING ''s3cret'')
       = (\<lparr>submissions = [finished_submission\<lparr>status := RUNNING\<rparr>], next_pk = 2,
           events = [DbWrite 1]\<rparr>,
          Inr (finished_submission\<lparr>status := RUNNING\<rparr>))"
  by (simp add: update_def super_update_def save_def set_attrs_def world0_def
      finished_submission_def vd_status_only_def dict_get_def Let_def)

text \<open>
  C3, amended. The update checks no transition: whatever the current status of the
  submission, terminal or not, an update that passes the secret check and asks for the
  status \<open>st\<close> succeeds, and the row it stores has the status \<open>st\<close>.
\<close>

theorem update_no_transition_check:
  assumes "secret inst = dict_get (vd_secret vd)" and "vd_status vd = Some st"
  shows "\<exists>w' inst'. update w inst vd = (w', Inr inst') \<and> status inst' = st
           \<and> inst' \<in> set (submissions w')"
  using assms
  by (simp add: update_def super_update_def Let_def status_set_attrs saved_row_stored)

theorem update_no_transition_check_witness:
  "status finished_submission = FINISHED
   \<and> (\<exists>w' inst'. update world0 finished_submission (vd_status_only SUBMITTING ''s3cret'')
          = (w', Inr inst') \<and> status inst' = SUBMITTING \<and> inst' \<in> set (submissions w'))"
proof -
  have s: "secret finished_submission
             = dict_get (vd_secret (vd_status_only SUBMITTING ''s3cret''))"
    by (simp add: finished_submission_def vd_status_only_def dict_get_def)
  have v: "vd_status (vd_status_only SUBMITTING ''s3cret'') = Some SUBMITTING"
    by (simp add: vd_status_only_def)
  from update_no_transition_check [OF s v, of world0] show ?thesis
    by (simp add: finished_submission_def)
qed

section \<open>Properties of the creation\<close>

text \<open>
  C9. With an owner in the serializer's context, \<open>create\<close> returns a new submission
  whose owner is that of the context (whatever the request says), the submission is
  appended to the table, and the effects of the call are the database write of the new
  row followed by one dispatch of it, which is the single call of \<open>start\<close>.
\<close>

theorem create_starts_submission:
  assumes "ctx_owner ctx = Some u"
  shows "\<exists>w' sub. create defaults w ctx vd = (w', Inr sub)
           \<and> owner sub = u
           \<and> submissions w' = submissions w @ [sub]
           \<and> w' = start (fst (super_create defaults w (vd\<lparr>vd_owner := Some u\<rparr>))) sub
           \<and> events w' = events w @ [DbWrite (pk sub), RunSubmission (pk sub) False]
           \<and> call_count w' = call_count w + 1"
  using assms
  by (simp add: create_def super_create_def insert_row_def start_def run_submission_def
      Let_def set_attrs_def call_count_def)

theorem create_starts_submission_witness:
  "\<exists>w' sub. create model_defaults world0 \<lparr>ctx_owner = Some 42\<rparr> vd_new = (w', Inr sub)
      \<and> owner sub = 42
      \<and> submissions w' = [finished_submission, sub]
      \<and> events w' = [DbWrite (pk sub), RunSubmission (pk sub) False]"
proof -
  have "ctx_owner \<lparr>ctx_owner = Some 42\<rparr> = Some 42" by simp
  from create_starts_submission [OF this, of model_defaults world0 vd_new]
  obtain w' sub where
    "create model_defaults world0 \<lparr>ctx_owner = Some 42\<rparr> vd_new = (w', Inr sub)"
    "owner sub = 42" "submissions w' = submissions world0 @ [sub]"
    "events w' = events world0 @ [DbWrite (pk sub), RunSubmission (pk sub) False]"
    by blast
  then show ?thesis
    by (intro exI [of _ w'] exI [of _ sub]) (simp add: world0_def)
qed

section \<open>Properties of the serialization\<close>

lemma represent_fields_keys:
  "represent_fields inst fs = Inr out \<Longrightarrow> map fst out = fs"
  by (induction fs arbitrary: out) (auto split: sum.splits)

lemma field_value_secret:
  "''secret'' \<noteq> f \<Longrightarrow> field_value (inst\<lparr>secret := s\<rparr>) f = field_value inst f"
  by (auto simp add: field_value_def get_filename_def)

lemma represent_fields_secret:
  "''secret'' \<notin> set fs \<Longrightarrow>
     represent_fields (inst\<lparr>secret := s\<rparr>) fs = represent_fields inst fs"
  by (induction fs) (simp_all add: field_value_secret split: sum.splits)

lemma secret_not_readable: "''secret'' \<notin> set readable_fields"
  by (simp add: readable_fields_def write_only_fields_def)

text \<open>
  C10. The serialized submission does not depend on the stored secret: replacing the
  secret by any other value leaves the output (or the exception) the same, and an output
  has no item under the key \<^verbatim>\<open>secret\<close>.
\<close>

theorem serialization_hides_secret:
  "to_representation (inst\<lparr>secret := s\<rparr>) = to_representation inst
   \<and> (\<forall>out. to_representation inst = Inr out \<longrightarrow> ''secret'' \<notin> fst ` set out)"
proof
  show "to_representation (inst\<lparr>secret := s\<rparr>) = to_representation inst"
    by (simp add: to_representation_def represent_fields_secret secret_not_readable)
next
  show "\<forall>out. to_representation inst = Inr out \<longrightarrow> ''secret'' \<notin> fst ` set out"
  proof (intro allI impI)
    fix out assume "to_representation inst = Inr out"
    then have "map fst out = readable_fields"
      by (simp add: to_representation_def represent_fields_keys)
    then have "fst ` set out = set readable_fields"
      by (metis set_map)
    then show "''secret'' \<notin> fst ` set out"
      by (simp add: secret_not_readable)
  qed
qed

theorem serialization_hides_secret_witness:
  "to_representation (finished_submission\<lparr>secret := Some ''other''\<rparr>)
     = Inr [(''id'', RInt 1), (''data'', RStr ''d41d8c''), (''phase'', RInt 1),
            (''status'', RStatus FINISHED), (''status_details'', RNone),
            (''filename'', RStr ''run.zip''), (''description'', RNone)]
   \<and> ''secret'' \<notin> fst ` set
        [(''id'', RInt 1), (''data'', RStr ''d41d8c''), (''phase'', RInt 1),
         (''status'', RStatus FINISHED), (''status_details'', RNone),
         (''filename'', RStr ''run.zip''), (''description'', RNone :: repr_value)]"
proof -
  have r: "to_representation finished_submission
     = Inr [(''id'', RInt 1), (''data'', RStr ''d41d8c''), (''phase'', RInt 1),
            (''status'', RStatus FINISHED), (''status_details'', RNone),
            (''filename'', RStr ''run.zip''), (''description'', RNone)]"
    by (simp add: to_representation_def readable_fields_def Meta_fields_def
        write_only_fields_def field_value_def get_filename_def basename_def repr_str_def
        finished_submission_def)
  from serialization_hides_secret [of "Some ''other''" finished_submission] r
  show ?thesis by simp
qed

section \<open>Properties of the phase migration\<close>

lemma migrate_one_step:
  "migrate_one t s (w, r) =
     (w\<lparr>submissions := submissions w @ [(clone t s)\<lparr>pk := next_pk w\<rparr>],
        next_pk := Suc (next_pk w),
        events := events w @ [DbWrite (next_pk w), RunSubmission (next_pk w) False]\<rparr>,
      r\<lparr>created := Suc (created r), triggers := Suc (triggers r)\<rparr>)"
  by (simp add: migrate_one_def insert_row_def start_def run_submission_def Let_def)

lemma phase_clone: "phase ((clone t s)\<lparr>pk := n\<rparr>) = t"
  by (simp add: clone_def)


lemma fold_migrate_one:
  "fold (migrate_one t) sel (w, r) = (w', r') \<Longrightarrow>
     created r' = created r + length sel
     \<and> triggers r' = triggers r + length sel
     \<and> call_count w' = call_count w + length sel
     \<and> (\<forall>p. count_submissions w' p =
            count_submissions w p + (if p = t then length sel else 0))"
proof (induction sel arbitrary: w r)
  case Nil
  then show ?case by simp
next
  case (Cons s sel)
  define w1 where "w1 =
     w\<lparr>submissions := submissions w @ [(clone t s)\<lparr>pk := next_pk w\<rparr>],
        next_pk := Suc (next_pk w),
        events := events w @ [DbWrite (next_pk w), RunSubmission (next_pk w) False]\<rparr>"
  define r1 where "r1 = r\<lparr>created := Suc (created r), triggers := Suc (triggers r)\<rparr>"
  have "migrate_one t s (w, r) = (w1, r1)"
    by (simp only: migrate_one_step w1_def r1_def)
  with Cons.prems have "fold (migrate_one t) sel (w1, r1) = (w', r')"
    by simp
  note IH = Cons.IH [OF this]
  have c1: "created r1 = Suc (created r)" "triggers r1 = Suc (triggers r)"
    by (simp_all add: r1_def)
  have c2: "call_count w1 = Suc (call_count w)"
    by (simp add: w1_def call_count_def)
  have c3: "count_submissions w1 p = count_submissions w p + (if p = t then 1 else 0)" for p
    by (simp add: w1_def count_submissions_def phase_clone)
  from IH show ?case
    by (simp add: c1 c2 c3)
qed


lemma filter_single:
  "distinct xs \<Longrightarrow> p \<in> set xs \<Longrightarrow> P p \<Longrightarrow> (\<forall>x\<in>set xs. P x \<longrightarrow> x = p)
     \<Longrightarrow> filter P xs = [p]"
proof (induction xs)
  case Nil
  then show ?case by simp
next
  case (Cons x xs)
  from Cons.prems(1) have dx: "x \<notin> set xs" "distinct xs" by simp_all
  show ?case
  proof (cases "x = p")
    case True
    have "\<not> P y" if "y \<in> set xs" for y
    proof
      assume "P y"
      with that Cons.prems(4) have "y = p" by simp
      with that dx True show False by simp
    qed
    then have "filter P xs = []" by (simp add: filter_empty_conv)
    with True Cons.prems(3) show ?thesis by simp
  next
    case False
    with Cons.prems(2) have "p \<in> set xs" by simp
    moreover from Cons.prems(4) have "\<forall>x\<in>set xs. P x \<longrightarrow> x = p" by simp
    ultimately have "filter P xs = [p]" using Cons.IH dx(2) Cons.prems(3) by blast
    moreover from False Cons.prems(4) have "\<not> P x" by auto
    ultimately show ?thesis by simp
  qed
qed

lemma migrate_authorized:
  "has_admin_permission (phase_competition src) requester \<Longrightarrow>
     migrate w src tgt requester =
       (fst (fold (migrate_one (phase_id tgt)) (select_top_level w (phase_id src))
            (w, \<lparr>created = 0, triggers = 0\<rparr>)),
        Inr (snd (fold (migrate_one (phase_id tgt)) (select_top_level w (phase_id src))
            (w, \<lparr>created = 0, triggers = 0\<rparr>))))"
  by (simp add: migrate_def Let_def split_beta)


text \<open>
  C5. An authorized migration from a source phase whose \<open>N\<close> submissions are all
  parentless and without children, into another phase, succeeds; it reports \<open>N\<close>
  submissions created and \<open>N\<close> triggers, the target phase has \<open>N\<close> submissions more,
  \<^verbatim>\<open>run_submission\<close> is called \<open>N\<close> times more, and the source phase has as many
  submissions as before.
\<close>

theorem migrate_leaves:
  assumes "has_admin_permission (phase_competition src) requester"
    and "phase_id src \<noteq> phase_id tgt"
    and "\<forall>s\<in>set (submissions w). phase s = phase_id src \<longrightarrow> parent s = None \<and> \<not> has_children s"
    and "count_submissions w (phase_id src) = N"
  shows "\<exists>w' r. migrate w src tgt requester = (w', Inr r)
           \<and> created r = N \<and> triggers r = N
           \<and> count_submissions w' (phase_id tgt) = count_submissions w (phase_id tgt) + N
           \<and> count_submissions w' (phase_id src) = count_submissions w (phase_id src)
           \<and> call_count w' = call_count w + N"
proof -
  from assms(3) have "select_top_level w (phase_id src)
      = filter (\<lambda>s. phase s = phase_id src) (submissions w)"
    unfolding select_top_level_def by (intro filter_cong) auto
  with assms(4) have len: "length (select_top_level w (phase_id src)) = N"
    by (simp add: count_submissions_def)
  obtain w' r where
    f: "fold (migrate_one (phase_id tgt)) (select_top_level w (phase_id src))
            (w, \<lparr>created = 0, triggers = 0\<rparr>) = (w', r)"
    by (cases "fold (migrate_one (phase_id tgt)) (select_top_level w (phase_id src))
            (w, \<lparr>created = 0, triggers = 0\<rparr>)")
  with migrate_authorized [OF assms(1), of w tgt]
  have m: "migrate w src tgt requester = (w', Inr r)" by simp
  from fold_migrate_one [OF f] have
    "created r = length (select_top_level w (phase_id src))"
    "triggers r = length (select_top_level w (phase_id src))"
    "call_count w' = call_count w + length (select_top_level w (phase_id src))"
    "count_submissions w' (phase_id tgt) =
       count_submissions w (phase_id tgt) + length (select_top_level w (phase_id src))"
    "count_submissions w' (phase_id src) = count_submissions w (phase_id src)"
    using assms(2) by simp_all
  with len m show ?thesis by simp
qed


theorem migrate_leaves_witness:
  "\<exists>w' r. migrate world_leaves phase_1 phase_2 7 = (w', Inr r)
      \<and> created r = 3 \<and> triggers r = 3
      \<and> count_submissions w' 2 = 3 \<and> count_submissions w' 1 = 3 \<and> call_count w' = 3"
proof -
  have a: "has_admin_permission (phase_competition phase_1) 7"
    by (simp add: has_admin_permission_def phase_1_def example_competition_def)
  have b: "phase_id phase_1 \<noteq> phase_id phase_2"
    by (simp add: phase_1_def phase_2_def)
  have c: "\<forall>s\<in>set (submissions world_leaves).
             phase s = phase_id phase_1 \<longrightarrow> parent s = None \<and> \<not> has_children s"
    by (simp add: world_leaves_def leaf_def)
  have d: "count_submissions world_leaves (phase_id phase_1) = 3"
    by (simp add: count_submissions_def world_leaves_def leaf_def phase_1_def)
  have e: "count_submissions world_leaves (phase_id phase_2) = 0"
    by (simp add: count_submissions_def world_leaves_def leaf_def phase_2_def)
  have f: "call_count world_leaves = 0"
    by (simp add: call_count_def world_leaves_def)
  from migrate_leaves [OF a b c d] obtain w' r where
    "migrate world_leaves phase_1 phase_2 7 = (w', Inr r)"
    "created r = 3" "triggers r = 3"
    "count_submissions w' (phase_id phase_2) = count_submissions world_leaves (phase_id phase_2) + 3"
    "count_submissions w' (phase_id phase_1) = count_submissions world_leaves (phase_id phase_1)"
    "call_count w' = call_count world_leaves + 3"
    by blast
  with d e f show ?thesis
    by (intro exI [of _ w'] exI [of _ r]) (simp add: phase_1_def phase_2_def)
qed

lemma fold_migrate_one_rows:
  "fold (migrate_one t) sel (w, r) = (w', r') \<Longrightarrow>
     submissions w' =
       submissions w @ map (\<lambda>(s, i). (clone t s)\<lparr>pk := i\<rparr>)
         (zip sel [next_pk w..<next_pk w + length sel])
     \<and> events w' =
       events w @ concat (map (\<lambda>(s, i). [DbWrite i, RunSubmission i False])
         (zip sel [next_pk w..<next_pk w + length sel]))"
proof (induction sel arbitrary: w r)
  case Nil
  then show ?case by simp
next
  case (Cons s sel)
  define w1 where "w1 =
     w\<lparr>submissions := submissions w @ [(clone t s)\<lparr>pk := next_pk w\<rparr>],
        next_pk := Suc (next_pk w),
        events := events w @ [DbWrite (next_pk w), RunSubmission (next_pk w) False]\<rparr>"
  define r1 where "r1 = r\<lparr>created := Suc (created r), triggers := Suc (triggers r)\<rparr>"
  have "migrate_one t s (w, r) = (w1, r1)"
    by (simp only: migrate_one_step w1_def r1_def)
  with Cons.prems have "fold (migrate_one t) sel (w1, r1) = (w', r')"
    by simp
  note IH = Cons.IH [OF this]
  have n: "next_pk w1 = Suc (next_pk w)"
    and sw: "submissions w1 = submissions w @ [(clone t s)\<lparr>pk := next_pk w\<rparr>]"
    and ev: "events w1 = events w @ [DbWrite (next_pk w), RunSubmission (next_pk w) False]"
    by (simp_all add: w1_def)
  have "next_pk w < next_pk w + length (s # sel)" by simp
  from upt_conv_Cons [OF this]
  have u: "[next_pk w..<next_pk w + length (s # sel)]
      = next_pk w # [Suc (next_pk w)..<Suc (next_pk w) + length sel]"
    by simp
  from IH show ?case
    unfolding n sw ev u by simp
qed

lemma filter_zip_none:
  "filter P sel = [] \<Longrightarrow> filter (\<lambda>(s, i). P s) (zip sel ids) = []"
  by (auto simp add: filter_empty_conv dest: set_zip_leftD)

lemma filter_zip_single:
  "filter P sel = [p] \<Longrightarrow> length ids = length sel \<Longrightarrow>
     \<exists>k. filter (\<lambda>(s, i). P s) (zip sel ids) = [(p, k)]"
proof (induction sel arbitrary: ids)
  case Nil
  then show ?case by simp
next
  case (Cons x sel)
  from Cons.prems(2) obtain i ids' where ids: "ids = i # ids'" and
    len: "length ids' = length sel"
    by (cases ids) auto
  show ?case
  proof (cases "P x")
    case True
    with Cons.prems(1) have "x = p" and "filter P sel = []" by simp_all
    then have "filter (\<lambda>(s, i). P s) (zip (x # sel) ids) = [(p, i)]"
      using True by (simp add: ids filter_zip_none)
    then show ?thesis by blast
  next
    case False
    with Cons.prems(1) have "filter P sel = [p]" by simp
    from Cons.IH [OF this len] obtain k where
      "filter (\<lambda>(s, i). P s) (zip sel ids') = [(p, k)]" by blast
    with False have "filter (\<lambda>(s, i). P s) (zip (x # sel) ids) = [(p, k)]"
      by (simp add: ids)
    then show ?thesis by blast
  qed
qed

text \<open>
  C4. An authorized migration succeeds and clones exactly the parentless submissions
  of the source phase, in table order: each gets one new row in the target phase, one
  database write and one call of \<^verbatim>\<open>run_submission\<close>. For every parentless submission
  \<open>p\<close> of the source phase, whatever else the table holds and however many children \<open>p\<close>
  has, the group of \<open>p\<close> and its children contributes exactly one of the cloned
  submissions, namely \<open>p\<close> itself: one new row and one dispatch for the group, and no
  child of \<open>p\<close> is cloned. This holds whether or not \<^verbatim>\<open>has_children\<close> is set on \<open>p\<close>.
\<close>

theorem migrate_parent:
  assumes "has_admin_permission (phase_competition src) requester"
    and "distinct (map pk (submissions w))"
    and "p \<in> set (submissions w)" and "phase p = phase_id src" and "parent p = None"
  shows "\<exists>w' r sel plan k.
      migrate w src tgt requester = (w', Inr r)
    \<and> sel = filter (\<lambda>s. phase s = phase_id src \<and> parent s = None) (submissions w)
    \<and> plan = zip sel [next_pk w..<next_pk w + length sel]
    \<and> submissions w' =
        submissions w @ map (\<lambda>(s, i). (clone (phase_id tgt) s)\<lparr>pk := i\<rparr>) plan
    \<and> events w' =
        events w @ concat (map (\<lambda>(s, i). [DbWrite i, RunSubmission i False]) plan)
    \<and> created r = length sel \<and> triggers r = length sel
    \<and> filter (\<lambda>(s, i). s = p \<or> parent s = Some (pk p)) plan = [(p, k)]
    \<and> (\<forall>c\<in>set (submissions w). parent c = Some (pk p) \<longrightarrow> c \<notin> fst ` set plan)"
proof -
  define sel where "sel = filter (\<lambda>s. phase s = phase_id src \<and> parent s = None) (submissions w)"
  define plan where "plan = zip sel [next_pk w..<next_pk w + length sel]"
  have st: "select_top_level w (phase_id src) = sel"
    by (simp add: select_top_level_def sel_def)
  obtain w' r where
    f: "fold (migrate_one (phase_id tgt)) sel (w, \<lparr>created = 0, triggers = 0\<rparr>) = (w', r)"
    by (cases "fold (migrate_one (phase_id tgt)) sel (w, \<lparr>created = 0, triggers = 0\<rparr>)")
  with migrate_authorized [OF assms(1), of w tgt]
  have m: "migrate w src tgt requester = (w', Inr r)"
    by (simp add: st)
  from fold_migrate_one_rows [OF f] have rows:
    "submissions w' =
        submissions w @ map (\<lambda>(s, i). (clone (phase_id tgt) s)\<lparr>pk := i\<rparr>) plan"
    "events w' =
        events w @ concat (map (\<lambda>(s, i). [DbWrite i, RunSubmission i False]) plan)"
    by (simp_all add: plan_def)
  from fold_migrate_one [OF f] have counts: "created r = length sel" "triggers r = length sel"
    by simp_all
  from assms(2) have "distinct (submissions w)"
    by (simp add: distinct_map)
  then have d: "distinct sel"
    by (simp add: sel_def)
  from assms(3,4,5) have ps: "p \<in> set sel"
    by (simp add: sel_def)
  have only: "\<forall>x\<in>set sel. x = p \<or> parent x = Some (pk p) \<longrightarrow> x = p"
    by (auto simp add: sel_def)
  from d ps _ only have "filter (\<lambda>x. x = p \<or> parent x = Some (pk p)) sel = [p]"
    by (rule filter_single) simp
  then obtain k where
    g: "filter (\<lambda>(s, i). s = p \<or> parent s = Some (pk p)) plan = [(p, k)]"
    unfolding plan_def using filter_zip_single [of "\<lambda>x. x = p \<or> parent x = Some (pk p)" sel p
        "[next_pk w..<next_pk w + length sel]"]
    by auto
  have ch: "\<forall>c\<in>set (submissions w). parent c = Some (pk p) \<longrightarrow> c \<notin> fst ` set plan"
  proof (intro ballI impI notI)
    fix c assume "parent c = Some (pk p)" and "c \<in> fst ` set plan"
    then have "c \<in> set sel"
      by (auto simp add: plan_def dest: set_zip_leftD)
    then have "parent c = None"
      by (simp add: sel_def)
    with \<open>parent c = Some (pk p)\<close> show False by simp
  qed
  from m rows counts g ch show ?thesis
    unfolding sel_def [symmetric] plan_def [symmetric]
    by (intro exI [of _ w'] exI [of _ r] exI [of _ sel] exI [of _ plan] exI [of _ k])
      (simp add: sel_def plan_def)
qed

theorem migrate_parent_witness:
  "\<exists>w' r. migrate world_families phase_1 phase_2 7 = (w', Inr r)
      \<and> created r = 2 \<and> triggers r = 2
      \<and> submissions w' =
          submissions world_families
            @ [parent_submission\<lparr>pk := 6, phase := 2, status := SUBMITTING\<rparr>,
               second_parent\<lparr>pk := 7, phase := 2, status := SUBMITTING\<rparr>]
      \<and> events w' =
          [DbWrite 6, RunSubmission 6 False, DbWrite 7, RunSubmission 7 False]"
proof -
  have a: "has_admin_permission (phase_competition phase_1) 7"
    by (simp add: has_admin_permission_def phase_1_def example_competition_def)
  have b: "distinct (map pk (submissions world_families))"
    by (simp add: world_families_def parent_submission_def second_parent_def child_def
        leaf_def)
  have c: "parent_submission \<in> set (submissions world_families)"
    by (simp add: world_families_def)
  have d: "phase parent_submission = phase_id phase_1" "parent parent_submission = None"
    by (simp_all add: parent_submission_def leaf_def phase_1_def)
  have sel: "filter (\<lambda>s. phase s = phase_id phase_1 \<and> parent s = None)
      (submissions world_families) = [parent_submission, second_parent]"
    by (simp add: world_families_def parent_submission_def second_parent_def child_def
        leaf_def phase_1_def)
  have ids: "[next_pk world_families..<next_pk world_families + 2] = [6, 7]"
    by (simp add: world_families_def upt_conv_Cons)
  from migrate_parent [OF a b c d, of phase_2] obtain w' r sel plan where
    m: "migrate world_families phase_1 phase_2 7 = (w', Inr r)" and
    s: "sel = filter (\<lambda>s. phase s = phase_id phase_1 \<and> parent s = None)
          (submissions world_families)" and
    p: "plan = zip sel [next_pk world_families..<next_pk world_families + length sel]" and
    rows: "submissions w' = submissions world_families
          @ map (\<lambda>(s, i). (clone (phase_id phase_2) s)\<lparr>pk := i\<rparr>) plan" and
    ev: "events w' = events world_families
          @ concat (map (\<lambda>(s, i). [DbWrite i, RunSubmission i False]) plan)" and
    n: "created r = length sel" "triggers r = length sel"
    by blast
  from s sel have sel': "sel = [parent_submission, second_parent]" by simp
  with p ids have plan: "plan = [(parent_submission, 6), (second_parent, 7)]" by simp
  from m rows ev n show ?thesis
    unfolding plan sel'
    by (intro exI [of _ w'] exI [of _ r])
      (simp add: clone_def phase_2_def parent_submission_def second_parent_def leaf_def
        world_families_def)
qed

text \<open>
  C6. A requester who is neither the creator nor a collaborator of the competition
  that owns the source phase gets \<open>PermissionError\<close> and the world stays as it was, so
  no submission is created; for the creator and for a collaborator the migration
  succeeds.
\<close>

theorem migrate_permission:
  "(\<not> (requester = created_by (phase_competition src)
        \<or> requester \<in> set (collaborators (phase_competition src)))
      \<longrightarrow> migrate w src tgt requester = (w, Inl PermissionError))
   \<and> (requester = created_by (phase_competition src)
        \<or> requester \<in> set (collaborators (phase_competition src))
      \<longrightarrow> (\<exists>w' r. migrate w src tgt requester = (w', Inr r)))"
proof (intro conjI impI)
  assume "\<not> (requester = created_by (phase_competition src)
        \<or> requester \<in> set (collaborators (phase_competition src)))"
  then show "migrate w src tgt requester = (w, Inl PermissionError)"
    by (simp add: migrate_def has_admin_permission_def)
next
  assume "requester = created_by (phase_competition src)
        \<or> requester \<in> set (collaborators (phase_competition src))"
  then have "has_admin_permission (phase_competition src) requester"
    by (simp add: has_admin_permission_def)
  from migrate_authorized [OF this, of w tgt]
  show "\<exists>w' r. migrate w src tgt requester = (w', Inr r)"
    by blast
qed

theorem migrate_permission_witness:
  "migrate world_leaves phase_1 phase_2 5 = (world_leaves, Inl PermissionError)
   \<and> (\<exists>w' r. migrate world_leaves phase_1 phase_2 9 = (w', Inr r))
   \<and> (\<exists>w' r. migrate world_leaves phase_1 phase_2 7 = (w', Inr r))"
  using migrate_permission [of 5 phase_1 world_leaves phase_2]
    migrate_permission [of 9 phase_1 world_leaves phase_2]
    migrate_permission [of 7 phase_1 world_leaves phase_2]
  by (simp add: phase_1_def example_competition_def)

section \<open>Properties of the result export\<close>



lemma digit_char_inj:
  "a < 10 \<Longrightarrow> b < 10 \<Longrightarrow> digit_char a = digit_char b \<Longrightarrow> a = b"
proof -
  assume a: "a < 10" and b: "b < 10" and e: "digit_char a = digit_char b"
  have "distinct ''0123456789''" by simp
  moreover have "a < length ''0123456789''" "b < length ''0123456789''" using a b by simp_all
  ultimately show "a = b" using e unfolding digit_char_def
    by (simp only: nth_eq_iff_index_eq)
qed

lemma digit_char_digit: "d < 10 \<Longrightarrow> digit_char d \<in> set ''0123456789''"
  unfolding digit_char_def by (rule nth_mem) simp

lemma str_nat_nonempty: "str_nat n \<noteq> []"
  by (subst str_nat.simps) simp

lemma str_nat_digits: "set (str_nat n) \<subseteq> set ''0123456789''"
proof (induction n rule: str_nat.induct)
  case (1 n)
  show ?case
  proof (cases "n < 10")
    case True
    then show ?thesis using digit_char_digit [of n] by (subst str_nat.simps) simp
  next
    case False
    have "n mod 10 < 10" by simp
    from digit_char_digit [OF this] "1" [OF False] False show ?thesis
      by (subst str_nat.simps) simp
  qed
qed

lemma str_nat_inj: "str_nat m = str_nat n \<Longrightarrow> m = n"
proof (induction m arbitrary: n rule: less_induct)
  case (less m)
  show ?case
  proof (cases "m < 10")
    case m: True
    show ?thesis
    proof (cases "n < 10")
      case True
      with m less.prems have "digit_char m = digit_char n"
        by (simp add: str_nat.simps)
      with m True show ?thesis by (rule digit_char_inj)
    next
      case False
      with m less.prems have "[digit_char m] = str_nat (n div 10) @ [digit_char (n mod 10)]"
        by (simp add: str_nat.simps [of m] str_nat.simps [of n])
      then have "str_nat (n div 10) = []" by simp
      then show ?thesis by (simp add: str_nat_nonempty)
    qed
  next
    case m: False
    show ?thesis
    proof (cases "n < 10")
      case True
      with m less.prems have "str_nat (m div 10) @ [digit_char (m mod 10)] = [digit_char n]"
        by (simp add: str_nat.simps [of m] str_nat.simps [of n])
      then have "str_nat (m div 10) = []" by simp
      then show ?thesis by (simp add: str_nat_nonempty)
    next
      case False
      with m less.prems have
        "str_nat (m div 10) @ [digit_char (m mod 10)]
           = str_nat (n div 10) @ [digit_char (n mod 10)]"
        by (simp add: str_nat.simps [of m] str_nat.simps [of n])
      then have q: "str_nat (m div 10) = str_nat (n div 10)"
        and r: "digit_char (m mod 10) = digit_char (n mod 10)" by simp_all
      from m have "m div 10 < m" by simp
      from less.IH [OF this q] have "m div 10 = n div 10" .
      moreover have "m mod 10 = n mod 10"
        by (rule digit_char_inj [OF _ _ r]) simp_all
      ultimately show ?thesis by (metis div_mult_mod_eq)
    qed
  qed
qed

lemma split_at_last:
  assumes "c \<notin> set ys" and "c \<notin> set ys'" and "xs @ c # ys = xs' @ c # ys'"
  shows "xs = xs' \<and> ys = ys'"
proof -
  have tw: "takeWhile (\<lambda>x. x \<noteq> c) (rev zs @ c # us) = rev zs" if "c \<notin> set zs" for zs us
  proof -
    have "takeWhile (\<lambda>x. x \<noteq> c) (rev zs @ c # us)
        = rev zs @ takeWhile (\<lambda>x. x \<noteq> c) (c # us)"
      by (rule takeWhile_append2) (use that in auto)
    then show ?thesis by simp
  qed
  from assms(3) have "rev (xs @ c # ys) = rev (xs' @ c # ys')" by simp
  then have "rev ys @ c # rev xs = rev ys' @ c # rev xs'" by simp
  then have "takeWhile (\<lambda>x. x \<noteq> c) (rev ys @ c # rev xs)
     = takeWhile (\<lambda>x. x \<noteq> c) (rev ys' @ c # rev xs')" by simp
  then have "rev ys = rev ys'"
    unfolding tw [OF assms(1)] tw [OF assms(2)] .
  then have "ys = ys'" by simp
  with assms(3) show ?thesis by simp
qed

lemma composite_key_inj:
  assumes "composite_key a = composite_key b"
  shows "lb_title a = lb_title b \<and> lb_id a = lb_id b"
proof -
  have no: "CHR ''('' \<notin> set (str_nat n @ '')'')" for n
    using str_nat_digits [of n] by auto
  from assms have
    "lb_title a @ CHR ''('' # (str_nat (lb_id a) @ '')'')
       = lb_title b @ CHR ''('' # (str_nat (lb_id b) @ '')'')"
    by (simp add: composite_key_def)
  from split_at_last [OF no no this]
  have "lb_title a = lb_title b" and "str_nat (lb_id a) = str_nat (lb_id b)" by simp_all
  then show ?thesis by (simp add: str_nat_inj)
qed


lemma composite_key_inj_csv:
  "composite_key a @ ''.csv'' = composite_key b @ ''.csv'' \<Longrightarrow> lb_id a = lb_id b"
  using composite_key_inj [of a b] by simp





lemma distinct_select:
  "distinct (map lb_id (leaderboards cmpt)) \<Longrightarrow>
     distinct (map lb_id (select_leaderboards cmpt sel))"
  by (cases sel) (simp_all add: select_leaderboards_def distinct_map_filter)

lemma distinct_entry_names:
  assumes "distinct (map lb_id ms)"
  shows "distinct (map (\<lambda>l. composite_key l @ ''.csv'') ms)"
proof -
  from assms have d: "distinct ms" and i: "inj_on lb_id (set ms)"
    by (simp_all add: distinct_map)
  have "inj_on (\<lambda>l. composite_key l @ ''.csv'') (set ms)"
  proof (rule inj_onI)
    fix a b assume a: "a \<in> set ms" and b: "b \<in> set ms"
      and e: "composite_key a @ ''.csv'' = composite_key b @ ''.csv''"
    from e have "lb_id a = lb_id b" by (rule composite_key_inj_csv)
    with i a b show "a = b" by (simp add: inj_on_def)
  qed
  with d show ?thesis by (simp add: distinct_map)
qed

text \<open>
  C8. The ZIP export of all leaderboards always returns an archive. Whatever the
  selector, a returned archive has the content type \<^verbatim>\<open>application/x-zip-compressed\<close>, is
  an attachment named \<^verbatim>\<open>"{competition.title}.zip"\<close>, and its entries are, in order, one
  CSV named \<^verbatim>\<open>"{title}({id}).csv"\<close> for each selected leaderboard and nothing else; with
  distinct leaderboard ids no two entries share a name.
\<close>

theorem export_zip_entries:
  "(\<exists>resp. export_zip render_csv cmpt AllLeaderboards = Inr resp)
   \<and> (\<forall>resp. export_zip render_csv cmpt sel = Inr resp \<longrightarrow>
        content_type resp = ''application/x-zip-compressed''
        \<and> content_disposition resp = ''attachment; filename='' @ comp_title cmpt @ ''.zip''
        \<and> map fst (zip_entries resp) =
             map (\<lambda>l. lb_title l @ ''('' @ str_nat (lb_id l) @ '').csv'')
               (select_leaderboards cmpt sel)
        \<and> (distinct (map lb_id (leaderboards cmpt)) \<longrightarrow> distinct (map fst (zip_entries resp))))"
proof (intro conjI allI impI)
  show "\<exists>resp. export_zip render_csv cmpt AllLeaderboards = Inr resp"
    by (simp add: export_zip_def matched_leaderboards_def)
next
  fix resp assume r: "export_zip render_csv cmpt sel = Inr resp"
  then have resp: "resp =
      \<lparr>content_type = ''application/x-zip-compressed'',
       content_disposition = ''attachment; filename='' @ comp_title cmpt @ ''.zip'',
       zip_entries = map (\<lambda>l. (composite_key l @ ''.csv'', render_csv l))
         (select_leaderboards cmpt sel)\<rparr>"
    by (auto simp add: export_zip_def matched_leaderboards_def Let_def
        split: sum.splits if_splits)
  show "content_type resp = ''application/x-zip-compressed''" by (simp add: resp)
  show "content_disposition resp = ''attachment; filename='' @ comp_title cmpt @ ''.zip''"
    by (simp add: resp)
  show "map fst (zip_entries resp) =
             map (\<lambda>l. lb_title l @ ''('' @ str_nat (lb_id l) @ '').csv'')
               (select_leaderboards cmpt sel)"
    by (simp add: resp composite_key_def comp_def)
  assume "distinct (map lb_id (leaderboards cmpt))"
  then have "distinct (map (\<lambda>l. composite_key l @ ''.csv'') (select_leaderboards cmpt sel))"
    by (intro distinct_entry_names distinct_select)
  then show "distinct (map fst (zip_entries resp))"
    by (simp add: resp comp_def)
qed

theorem export_zip_entries_witness:
  "\<exists>resp. export_zip lb_title example_competition AllLeaderboards = Inr resp
     \<and> content_type resp = ''application/x-zip-compressed''
     \<and> content_disposition resp = ''attachment; filename=Autumn Challenge.zip''
     \<and> map fst (zip_entries resp)
         = [''Results(3).csv'', ''Final Results(12).csv'', ''Development(15).csv'']
     \<and> distinct (map fst (zip_entries resp))"
proof -
  have d: "distinct (map lb_id (leaderboards example_competition))"
    by (simp add: example_competition_def)
  have k: "str_nat 12 = ''12''" "str_nat 3 = ''3''" "str_nat 15 = ''15''"
    by (simp_all add: str_nat.simps digit_char_def)
  note t = export_zip_entries [of lb_title example_competition AllLeaderboards]
  from t obtain resp where
    r: "export_zip lb_title example_competition AllLeaderboards = Inr resp"
    by blast
  with t d have
    "content_type resp = ''application/x-zip-compressed''"
    "content_disposition resp
       = ''attachment; filename='' @ comp_title example_competition @ ''.zip''"
    "map fst (zip_entries resp) =
       map (\<lambda>l. lb_title l @ ''('' @ str_nat (lb_id l) @ '').csv'')
         (select_leaderboards example_competition AllLeaderboards)"
    "distinct (map fst (zip_entries resp))"
    by blast+
  with r show ?thesis
    by (intro exI [of _ resp])
      (simp add: select_leaderboards_def example_competition_def k)
qed

end
